theory Spec2Isabelle
  imports Main
begin

section \<open>The todo list manager: data model\<close>

text \<open>
  The program \<^verbatim>\<open>todo_script.py\<close> keeps one module-level list of task descriptions,
  \<^verbatim>\<open>todo_list\<close>, and offers four operations on it: \<^verbatim>\<open>add_task\<close>,
  \<^verbatim>\<open>remove_task\<close>, \<^verbatim>\<open>view_tasks\<close> and \<^verbatim>\<open>save_tasks\<close>. Everything the
  operations touch is collected in one record, the world: the list itself, the text
  written to standard output so far, and the file system.

  The file system is a map from paths to contents, together with what decides whether an
  I/O call fails: the set of paths that cannot be opened for writing (\<open>denied\<close>), and the
  number of further \<^verbatim>\<open>write\<close> calls that succeed (\<open>write_budget\<close>, \<open>None\<close> when
  there is no limit). A file object is identified by the path it was opened on, and
  \<open>open_handles\<close> lists the file objects that are open, one entry per \<^verbatim>\<open>open\<close> call
  that has not been closed.

  Text is written as on a POSIX system: the newline character is written as it is.
\<close>

datatype error = IndexError | OSError

type_synonym handle = string

record world =
  todo_list :: "string list"
  stdout :: string
  files :: "string \<rightharpoonup> string"
  denied :: "string set"
  write_budget :: "nat option"
  open_handles :: "handle list"

text \<open>
  An operation takes the world and returns the exception it raised, if any, and the world
  it leaves behind.
\<close>

type_synonym outcome = "error option \<times> world"

definition newline :: char where
  "newline = CHR 0x0A"

section \<open>Built-ins of the language\<close>

text \<open>\<^verbatim>\<open>print(s)\<close> writes \<open>s\<close> and a newline character to standard output.\<close>

definition print :: "string \<Rightarrow> world \<Rightarrow> world" where
  "print s w = w\<lparr>stdout := stdout w @ s @ [newline]\<rparr>"

text \<open>
  \<^verbatim>\<open>del xs[i]\<close>: a negative index counts from the end; an index that is still outside
  the list raises \<^verbatim>\<open>IndexError\<close>.
\<close>

definition del_item :: "int \<Rightarrow> 'a list \<Rightarrow> error + 'a list" where
  "del_item i xs =
     (let n = int (length xs);
          k = (if i < 0 then i + n else i)
      in if 0 \<le> k \<and> k < n then Inr (take (nat k) xs @ drop (Suc (nat k)) xs)
         else Inl IndexError)"

text \<open>
  The decimal text of an integer, as an f-string field \<^verbatim>\<open>{i + 1}\<close> renders it.
\<close>

definition digit_char :: "nat \<Rightarrow> char" where
  "digit_char d = char_of (48 + d)"

function str_nat :: "nat \<Rightarrow> string" where
  "str_nat n = (if n < 10 then [digit_char n] else str_nat (n div 10) @ [digit_char (n mod 10)])"
  by pat_completeness auto
termination
  by (relation "measure (\<lambda>n. n)") auto

declare str_nat.simps [simp del]

definition str_int :: "int \<Rightarrow> string" where
  "str_int i = (if i < 0 then CHR ''-'' # str_nat (nat (- i)) else str_nat (nat i))"

text \<open>
  \<^verbatim>\<open>open(filename, 'w')\<close> fails with \<^verbatim>\<open>OSError\<close> on a path that cannot be opened;
  otherwise the file is created or truncated and a file object for it is open.
  \<^verbatim>\<open>f.write(data)\<close> fails with \<^verbatim>\<open>OSError\<close> when the budget of writes is used up;
  otherwise \<open>data\<close> is added at the end of the file. Closing a file object removes it
  from the open ones. Written text is put into the file at once; the buffer of the
  file object, which holds it back until the file object is closed at the latest, is
  not modelled.
\<close>

definition open_w :: "string \<Rightarrow> world \<Rightarrow> (error + handle) \<times> world" where
  "open_w filename w =
     (if filename \<in> denied w then (Inl OSError, w)
      else (Inr filename,
            w\<lparr>files := (files w)(filename \<mapsto> []), open_handles := filename # open_handles w\<rparr>))"

definition file_write :: "handle \<Rightarrow> string \<Rightarrow> world \<Rightarrow> outcome" where
  "file_write f data w =
     (case write_budget w of
        Some 0 \<Rightarrow> (Some OSError, w)
      | Some (Suc k) \<Rightarrow>
          (None, w\<lparr>files := (files w)(f \<mapsto> (case files w f of None \<Rightarrow> [] | Some old \<Rightarrow> old) @ data),
                   write_budget := Some k\<rparr>)
      | None \<Rightarrow>
          (None, w\<lparr>files := (files w)(f \<mapsto> (case files w f of None \<Rightarrow> [] | Some old \<Rightarrow> old) @ data)\<rparr>))"

definition file_close :: "handle \<Rightarrow> world \<Rightarrow> world" where
  "file_close f w = w\<lparr>open_handles := remove1 f (open_handles w)\<rparr>"

text \<open>
  Statements in sequence: the second runs only when the first raised nothing.
\<close>

definition seq :: "(world \<Rightarrow> outcome) \<Rightarrow> (world \<Rightarrow> outcome) \<Rightarrow> world \<Rightarrow> outcome" where
  "seq p q w = (case p w of (None, w') \<Rightarrow> q w' | (Some e, w') \<Rightarrow> (Some e, w'))"

section \<open>The four operations\<close>

text \<open>
  \<^verbatim>\<open>
  def add_task(task):
      todo_list.append(task)
  \<close>
\<close>

definition add_task :: "string \<Rightarrow> world \<Rightarrow> outcome" where
  "add_task task w = (None, w\<lparr>todo_list := todo_list w @ [task]\<rparr>)"

text \<open>
  \<^verbatim>\<open>
  def remove_task(index):
      if 0 <= index < len(todo_list):
          del todo_list[index]
      else:
          print("Invalid index")
  \<close>
\<close>

definition remove_task :: "int \<Rightarrow> world \<Rightarrow> outcome" where
  "remove_task index w =
     (if 0 \<le> index \<and> index < int (length (todo_list w))
      then (case del_item index (todo_list w) of
              Inl e \<Rightarrow> (Some e, w)
            | Inr xs \<Rightarrow> (None, w\<lparr>todo_list := xs\<rparr>))
      else (None, print ''Invalid index'' w))"

text \<open>
  \<^verbatim>\<open>
  def view_tasks():
      for i, task in enumerate(todo_list):
          print(f"{i + 1}. {task}")
  \<close>
  The loop runs over the list with the counter of \<^verbatim>\<open>enumerate\<close>, which starts at 0.
\<close>

fun view_loop :: "int \<Rightarrow> string list \<Rightarrow> world \<Rightarrow> world" where
  "view_loop i [] w = w"
| "view_loop i (task # rest) w = view_loop (i + 1) rest (print (str_int (i + 1) @ ''. '' @ task) w)"

definition view_tasks :: "world \<Rightarrow> outcome" where
  "view_tasks w = (None, view_loop 0 (todo_list w) w)"

text \<open>
  \<^verbatim>\<open>
  def save_tasks(filename):
      with open(filename, 'w') as f:
          for task in todo_list:
              f.write(task + '\n')
  \<close>
  The \<^verbatim>\<open>with\<close> statement closes the file object when its body is left, whether the
  body finished or raised, and an exception of the body goes on to the caller. When
  \<^verbatim>\<open>open\<close> itself raises there is no file object and the body does not run.
\<close>

fun write_loop :: "handle \<Rightarrow> string list \<Rightarrow> world \<Rightarrow> outcome" where
  "write_loop f [] w = (None, w)"
| "write_loop f (task # rest) w =
     (case file_write f (task @ [newline]) w of
        (Some e, w') \<Rightarrow> (Some e, w')
      | (None, w') \<Rightarrow> write_loop f rest w')"

definition save_tasks :: "string \<Rightarrow> world \<Rightarrow> outcome" where
  "save_tasks filename w =
     (case open_w filename w of
        (Inl e, w') \<Rightarrow> (Some e, w')
      | (Inr f, w1) \<Rightarrow>
          (case write_loop f (todo_list w1) w1 of
             (r, w2) \<Rightarrow> (r, file_close f w2)))"

text \<open>
  The module's top level: the list starts empty, then
  \<^verbatim>\<open>
  add_task("Buy groceries")
  add_task("Read a book")
  view_tasks()
  save_tasks("todo.txt")
  \<close>
\<close>

definition main :: "world \<Rightarrow> outcome" where
  "main w =
     seq (add_task ''Buy groceries'')
       (seq (add_task ''Read a book'')
          (seq view_tasks (save_tasks ''todo.txt'')))
       (w\<lparr>todo_list := []\<rparr>)"

section \<open>Notions used to state the properties\<close>

text \<open>
  A run of appends, one \<^verbatim>\<open>add_task\<close> call per description, in the order given.
\<close>

fun add_tasks :: "string list \<Rightarrow> world \<Rightarrow> outcome" where
  "add_tasks [] w = (None, w)"
| "add_tasks (d # ds) w = seq (add_task d) (add_tasks ds) w"

text \<open>
  The text that the listing loop writes for the tasks \<open>ts\<close> when the counter of
  \<^verbatim>\<open>enumerate\<close> stands at \<open>i\<close>, and the text that the write loop puts into the file.
\<close>

definition listing :: "int \<Rightarrow> string list \<Rightarrow> string" where
  "listing i ts =
     concat (map (\<lambda>k. str_int (i + int k + 1) @ ''. '' @ ts ! k @ [newline]) [0..<length ts])"

definition file_text :: "string list \<Rightarrow> string" where
  "file_text ts = concat (map (\<lambda>t. t @ [newline]) ts)"

text \<open>What an operation adds to standard output when it is run in the world \<open>w\<close>.\<close>

definition emitted :: "(world \<Rightarrow> outcome) \<Rightarrow> world \<Rightarrow> string" where
  "emitted p w = drop (length (stdout w)) (stdout (snd (p w)))"

text \<open>
  The budget of writes covers \<open>n\<close> more writes; and what is left of it after \<open>n\<close> writes.
\<close>

definition budget_covers :: "nat option \<Rightarrow> nat \<Rightarrow> bool" where
  "budget_covers b n = (case b of None \<Rightarrow> True | Some k \<Rightarrow> n \<le> k)"

definition spend :: "nat option \<Rightarrow> nat \<Rightarrow> nat option" where
  "spend b n = (case b of None \<Rightarrow> None | Some k \<Rightarrow> Some (k - n))"

text \<open>
  Modelled from the spec: the program has no reader for the file it writes. The spec
  speaks of "reading the file as newline-delimited text", one description per line, each
  line ended by a newline character, the last newline starting no further entry.
  \<open>read_lines\<close> cuts a text at every newline character; text after the last newline,
  when there is any, is a last line.
\<close>

fun read_lines_from :: "string \<Rightarrow> string \<Rightarrow> string list" where
  "read_lines_from cur [] = (if cur = [] then [] else [cur])"
| "read_lines_from cur (c # cs) =
     (if c = newline then cur # read_lines_from [] cs else read_lines_from (cur @ [c]) cs)"

definition read_lines :: "string \<Rightarrow> string list" where
  "read_lines s = read_lines_from [] s"

text \<open>
  The value of a decimal text, to check \<open>str_nat\<close> against.
\<close>

definition decimal_value :: "string \<Rightarrow> nat" where
  "decimal_value s = foldl (\<lambda>a c. 10 * a + (of_char c - 48)) 0 s"

text \<open>
  A world for concrete runs: the given tasks, nothing written yet, no file, and no
  I/O call that fails.
\<close>

definition quiet_world :: "string list \<Rightarrow> world" where
  "quiet_world ts =
     \<lparr>todo_list = ts, stdout = [], files = Map.empty, denied = {},
      write_budget = None, open_handles = []\<rparr>"

section \<open>Facts about the built-ins and the loops\<close>

lemma print_fields [simp]:
  "todo_list (print s w) = todo_list w"
  "stdout (print s w) = stdout w @ s @ [newline]"
  "files (print s w) = files w"
  "denied (print s w) = denied w"
  "write_budget (print s w) = write_budget w"
  "open_handles (print s w) = open_handles w"
  by (simp_all add: print_def)

lemma listing_Nil [simp]: "listing i [] = []"
  by (simp add: listing_def)

lemma listing_Cons:
  "listing i (t # ts) = str_int (i + 1) @ ''. '' @ t @ [newline] @ listing (i + 1) ts"
proof -
  have "[0..<length (t # ts)] = 0 # map Suc [0..<length ts]"
    by (simp add: upt_conv_Cons map_Suc_upt del: upt_Suc)
  then show ?thesis
    by (simp add: listing_def comp_def add.assoc add.commute del: upt_Suc)
qed

lemma view_loop_eq: "view_loop i ts w = w\<lparr>stdout := stdout w @ listing i ts\<rparr>"
proof (induction ts arbitrary: i w)
  case Nil
  show ?case by simp
next
  case (Cons t ts)
  show ?case
    by (simp add: Cons.IH listing_Cons print_def)
qed

lemma file_write_handles: "open_handles (snd (file_write f d w)) = open_handles w"
  by (simp add: file_write_def split: option.splits nat.splits)

lemma file_write_todo: "todo_list (snd (file_write f d w)) = todo_list w"
  by (simp add: file_write_def split: option.splits nat.splits)

lemma write_loop_handles: "open_handles (snd (write_loop f ts w)) = open_handles w"
proof (induction ts arbitrary: w)
  case Nil
  show ?case by simp
next
  case (Cons t ts)
  show ?case
  proof (cases "file_write f (t @ [newline]) w")
    case (Pair r w')
    have h: "open_handles w' = open_handles w"
      using file_write_handles [of f "t @ [newline]" w] Pair by simp
    show ?thesis
      using Pair h Cons.IH [of w'] by (cases r) simp_all
  qed
qed

lemma write_loop_todo: "todo_list (snd (write_loop f ts w)) = todo_list w"
proof (induction ts arbitrary: w)
  case Nil
  show ?case by simp
next
  case (Cons t ts)
  show ?case
  proof (cases "file_write f (t @ [newline]) w")
    case (Pair r w')
    have h: "todo_list w' = todo_list w"
      using file_write_todo [of f "t @ [newline]" w] Pair by simp
    show ?thesis
      using Pair h Cons.IH [of w'] by (cases r) simp_all
  qed
qed

text \<open>
  With enough budget the write loop raises nothing and the file holds what it held
  before, followed by the text of the tasks.
\<close>

lemma write_loop_ok:
  "budget_covers (write_budget w) (length ts) \<Longrightarrow> files w f = Some old \<Longrightarrow>
   write_loop f ts w =
     (None, w\<lparr>files := (files w)(f \<mapsto> old @ file_text ts),
               write_budget := spend (write_budget w) (length ts)\<rparr>)"
proof (induction ts arbitrary: w old)
  case Nil
  then show ?case
    by (simp add: file_text_def spend_def fun_upd_idem split: option.splits)
next
  case (Cons t ts)
  show ?case
  proof (cases "write_budget w")
    case None
    let ?w' = "w\<lparr>files := (files w)(f \<mapsto> old @ t @ [newline])\<rparr>"
    have fw: "file_write f (t @ [newline]) w = (None, ?w')"
      using None Cons.prems(2) by (simp add: file_write_def)
    have "write_loop f (t # ts) w = write_loop f ts ?w'"
      by (simp add: fw)
    also have "\<dots> =
        (None, ?w'\<lparr>files := (files ?w')(f \<mapsto> (old @ t @ [newline]) @ file_text ts),
                    write_budget := spend (write_budget ?w') (length ts)\<rparr>)"
      by (rule Cons.IH) (simp_all add: None budget_covers_def)
    also have "\<dots> =
        (None, w\<lparr>files := (files w)(f \<mapsto> old @ file_text (t # ts)),
                  write_budget := spend (write_budget w) (length (t # ts))\<rparr>)"
      by (simp add: None file_text_def spend_def)
    finally show ?thesis .
  next
    case (Some k)
    then obtain k' where k: "k = Suc k'" and le: "length ts \<le> k'"
      using Cons.prems(1) by (cases k) (simp_all add: budget_covers_def)
    let ?w' = "w\<lparr>files := (files w)(f \<mapsto> old @ t @ [newline]), write_budget := Some k'\<rparr>"
    have fw: "file_write f (t @ [newline]) w = (None, ?w')"
      using Some k Cons.prems(2) by (simp add: file_write_def)
    have "write_loop f (t # ts) w = write_loop f ts ?w'"
      by (simp add: fw)
    also have "\<dots> =
        (None, ?w'\<lparr>files := (files ?w')(f \<mapsto> (old @ t @ [newline]) @ file_text ts),
                    write_budget := spend (write_budget ?w') (length ts)\<rparr>)"
      by (rule Cons.IH) (simp_all add: le budget_covers_def)
    also have "\<dots> =
        (None, w\<lparr>files := (files w)(f \<mapsto> old @ file_text (t # ts)),
                  write_budget := spend (write_budget w) (length (t # ts))\<rparr>)"
      by (simp add: Some k file_text_def spend_def)
    finally show ?thesis .
  qed
qed

text \<open>When the budget runs out before the last task, the write loop raises.\<close>

lemma write_loop_fails:
  "write_budget w = Some k \<Longrightarrow> k < length ts \<Longrightarrow> fst (write_loop f ts w) = Some OSError"
proof (induction ts arbitrary: w k)
  case Nil
  then show ?case by simp
next
  case (Cons t ts)
  show ?case
  proof (cases k)
    case 0
    then show ?thesis using Cons.prems by (simp add: file_write_def)
  next
    case (Suc k')
    let ?w' = "w\<lparr>files := (files w)(f \<mapsto> (case files w f of None \<Rightarrow> [] | Some old \<Rightarrow> old) @ t @ [newline]),
                 write_budget := Some k'\<rparr>"
    have fw: "file_write f (t @ [newline]) w = (None, ?w')"
      using Suc Cons.prems(1) by (simp add: file_write_def)
    have "fst (write_loop f ts ?w') = Some OSError"
      by (rule Cons.IH [of _ k']) (use Suc Cons.prems in simp_all)
    then show ?thesis using fw by simp
  qed
qed

section \<open>Facts about the operations\<close>

lemma save_tasks_denied:
  "filename \<in> denied w \<Longrightarrow> save_tasks filename w = (Some OSError, w)"
  by (simp add: save_tasks_def open_w_def)

lemma save_tasks_ok:
  assumes "filename \<notin> denied w"
    and "budget_covers (write_budget w) (length (todo_list w))"
  shows "save_tasks filename w =
     (None, w\<lparr>files := (files w)(filename \<mapsto> file_text (todo_list w)),
               write_budget := spend (write_budget w) (length (todo_list w))\<rparr>)"
proof -
  let ?w1 = "w\<lparr>files := (files w)(filename \<mapsto> []), open_handles := filename # open_handles w\<rparr>"
  have op: "open_w filename w = (Inr filename, ?w1)"
    using assms(1) by (simp add: open_w_def)
  have wl: "write_loop filename (todo_list w) ?w1 =
      (None, ?w1\<lparr>files := (files ?w1)(filename \<mapsto> [] @ file_text (todo_list w)),
                  write_budget := spend (write_budget ?w1) (length (todo_list w))\<rparr>)"
    by (rule write_loop_ok) (use assms(2) in simp_all)
  show ?thesis
    by (simp add: save_tasks_def op wl file_close_def)
qed

lemma save_tasks_handles: "open_handles (snd (save_tasks filename w)) = open_handles w"
proof (cases "filename \<in> denied w")
  case True
  then show ?thesis by (simp add: save_tasks_denied)
next
  case False
  let ?w1 = "w\<lparr>files := (files w)(filename \<mapsto> []), open_handles := filename # open_handles w\<rparr>"
  have op: "open_w filename w = (Inr filename, ?w1)"
    using False by (simp add: open_w_def)
  obtain r w2 where wl: "write_loop filename (todo_list w) ?w1 = (r, w2)"
    by (cases "write_loop filename (todo_list w) ?w1")
  have "open_handles w2 = filename # open_handles w"
    using write_loop_handles [of filename "todo_list w" ?w1] wl by simp
  then show ?thesis
    by (simp add: save_tasks_def op wl file_close_def)
qed

lemma save_tasks_todo: "todo_list (snd (save_tasks filename w)) = todo_list w"
proof (cases "filename \<in> denied w")
  case True
  then show ?thesis by (simp add: save_tasks_denied)
next
  case False
  let ?w1 = "w\<lparr>files := (files w)(filename \<mapsto> []), open_handles := filename # open_handles w\<rparr>"
  have op: "open_w filename w = (Inr filename, ?w1)"
    using False by (simp add: open_w_def)
  obtain r w2 where wl: "write_loop filename (todo_list w) ?w1 = (r, w2)"
    by (cases "write_loop filename (todo_list w) ?w1")
  have "todo_list w2 = todo_list w"
    using write_loop_todo [of filename "todo_list w" ?w1] wl by simp
  then show ?thesis
    by (simp add: save_tasks_def op wl file_close_def)
qed

lemma save_tasks_short_budget:
  assumes "filename \<notin> denied w" and "write_budget w = Some k" and "k < length (todo_list w)"
  shows "fst (save_tasks filename w) = Some OSError"
proof -
  let ?w1 = "w\<lparr>files := (files w)(filename \<mapsto> []), open_handles := filename # open_handles w\<rparr>"
  have op: "open_w filename w = (Inr filename, ?w1)"
    using assms(1) by (simp add: open_w_def)
  obtain r w2 where wl: "write_loop filename (todo_list w) ?w1 = (r, w2)"
    by (cases "write_loop filename (todo_list w) ?w1")
  have "fst (write_loop filename (todo_list w) ?w1) = Some OSError"
    by (rule write_loop_fails [of _ k]) (use assms in simp_all)
  then have "r = Some OSError"
    by (simp add: wl)
  then show ?thesis
    by (simp add: save_tasks_def op wl)
qed

lemma view_tasks_eq: "view_tasks w = (None, w\<lparr>stdout := stdout w @ listing 0 (todo_list w)\<rparr>)"
  by (simp add: view_tasks_def view_loop_eq)

lemma add_tasks_eq: "add_tasks ds w = (None, w\<lparr>todo_list := todo_list w @ ds\<rparr>)"
  by (induction ds arbitrary: w) (simp_all add: seq_def add_task_def)

lemma read_lines_from_line:
  "newline \<notin> set t \<Longrightarrow> read_lines_from cur (t @ newline # rest) = (cur @ t) # read_lines_from [] rest"
  by (induction t arbitrary: cur) auto

lemma read_lines_file_text:
  "\<forall>t\<in>set ts. newline \<notin> set t \<Longrightarrow> read_lines (file_text ts) = ts"
proof (induction ts)
  case Nil
  show ?case by (simp add: read_lines_def file_text_def)
next
  case (Cons t ts)
  have "read_lines (file_text (t # ts)) = read_lines_from [] (t @ newline # file_text ts)"
    by (simp add: read_lines_def file_text_def)
  also have "\<dots> = t # read_lines_from [] (file_text ts)"
    using Cons.prems by (simp add: read_lines_from_line)
  also have "\<dots> = t # ts"
    using Cons by (simp add: read_lines_def)
  finally show ?case .
qed

lemma digit_value: "d < 10 \<Longrightarrow> of_char (digit_char d) - 48 = d"
  by (simp add: digit_char_def)

lemma decimal_value_snoc: "decimal_value (s @ [c]) = 10 * decimal_value s + (of_char c - 48)"
  by (simp add: decimal_value_def)

lemma str_nat_value: "decimal_value (str_nat n) = n"
proof (induction n rule: str_nat.induct)
  case (1 n)
  show ?case
  proof (cases "n < 10")
    case True
    then show ?thesis
      by (simp add: str_nat.simps [of n] decimal_value_def digit_value)
  next
    case False
    then show ?thesis
      using "1.IH" by (simp add: str_nat.simps [of n] decimal_value_snoc digit_value)
  qed
qed

text \<open>
  \<open>str_nat\<close> gives the decimal text: its value is the number, it has digits only, and
  it has no leading zero.
\<close>

lemma digit_char_table: "map digit_char [0..<10] = ''0123456789''"
  by code_simp

lemma digit_char_nth:
  assumes "d < 10"
  shows "digit_char d = ''0123456789'' ! d"
proof -
  have "map digit_char [0..<10] ! d = digit_char ([0..<10] ! d)"
    using assms by (simp only: nth_map length_upt diff_zero)
  also have "[0..<10] ! d = d"
    using assms by (simp only: nth_upt add_0)
  finally show ?thesis
    by (simp only: digit_char_table)
qed

lemma digit_char_cases:
  assumes "d < 10"
  shows "digit_char d \<in> set ''0123456789'' \<and> (digit_char d = CHR ''0'' \<longrightarrow> d = 0)"
proof -
  have len: "length ''0123456789'' = 10"
    by simp
  have dist: "distinct ''0123456789''"
    by simp
  have mem: "''0123456789'' ! d \<in> set ''0123456789''"
    by (rule nth_mem) (simp only: len assms)
  have zero: "''0123456789'' ! 0 = CHR ''0''"
    by simp
  have "d = 0" if "''0123456789'' ! d = CHR ''0''"
  proof -
    have "''0123456789'' ! d = ''0123456789'' ! 0"
      using that zero by simp
    moreover have "d < length ''0123456789''" "0 < length ''0123456789''"
      using assms by (simp_all only: len)
    ultimately show ?thesis
      using dist nth_eq_iff_index_eq by blast
  qed
  then show ?thesis
    using mem by (simp only: digit_char_nth [OF assms]) blast
qed

lemma str_nat_nonempty: "str_nat n \<noteq> []"
  by (simp add: str_nat.simps [of n])

lemma str_nat_digits: "set (str_nat n) \<subseteq> set ''0123456789''"
proof (induction n rule: str_nat.induct)
  case (1 n)
  show ?case
  proof (cases "n < 10")
    case True
    then show ?thesis
      using digit_char_cases [of n] by (simp add: str_nat.simps [of n])
  next
    case False
    have "n mod 10 < 10" by simp
    then show ?thesis
      using False "1.IH" digit_char_cases [of "n mod 10"] by (simp add: str_nat.simps [of n])
  qed
qed

lemma str_nat_no_leading_zero: "0 < n \<Longrightarrow> hd (str_nat n) \<noteq> CHR ''0''"
proof (induction n rule: str_nat.induct)
  case (1 n)
  show ?case
  proof (cases "n < 10")
    case True
    then show ?thesis
      using "1.prems" digit_char_cases [of n] by (auto simp add: str_nat.simps [of n])
  next
    case False
    then have "0 < n div 10" by simp
    then have "hd (str_nat (n div 10)) \<noteq> CHR ''0''"
      using False "1.IH" by simp
    then show ?thesis
      using False str_nat_nonempty [of "n div 10"] by (simp add: str_nat.simps [of n])
  qed
qed

lemma str_int_1: "str_int 1 = ''1''"
  by code_simp

lemma str_int_2: "str_int 2 = ''2''"
  by code_simp

lemma del_item_valid:
  "0 \<le> i \<Longrightarrow> i < int (length xs) \<Longrightarrow>
   del_item i xs = Inr (take (nat i) xs @ drop (Suc (nat i)) xs)"
  by (simp add: del_item_def)

lemma remove_task_valid:
  "0 \<le> i \<Longrightarrow> i < int (length (todo_list w)) \<Longrightarrow>
   remove_task i w =
     (None, w\<lparr>todo_list := take (nat i) (todo_list w) @ drop (Suc (nat i)) (todo_list w)\<rparr>)"
  by (simp add: remove_task_def del_item_valid)

section \<open>Removing a task\<close>

text \<open>
  Claim C1. For an index \<open>i\<close> with \<open>0 \<le> i < length\<close>, \<^verbatim>\<open>remove_task(i)\<close> raises
  nothing and deletes exactly the element at position \<open>i\<close>: the list is one shorter, every
  element that stood at a position \<open>j > i\<close> stands at \<open>j - 1\<close> afterwards, and every
  element before position \<open>i\<close> is where it was. Nothing is printed.
\<close>

theorem remove_task_deletes_at_index:
  assumes "0 \<le> i" and "i < int (length (todo_list w))"
  shows "fst (remove_task i w) = None
    \<and> Suc (length (todo_list (snd (remove_task i w)))) = length (todo_list w)
    \<and> (\<forall>j. nat i < j \<and> j < length (todo_list w) \<longrightarrow>
          todo_list (snd (remove_task i w)) ! (j - 1) = todo_list w ! j)
    \<and> (\<forall>j. j < nat i \<longrightarrow> todo_list (snd (remove_task i w)) ! j = todo_list w ! j)
    \<and> stdout (snd (remove_task i w)) = stdout w"
proof -
  let ?xs = "todo_list w"
  let ?k = "nat i"
  have k: "?k < length ?xs"
    using assms by simp
  have eq: "remove_task i w = (None, w\<lparr>todo_list := take ?k ?xs @ drop (Suc ?k) ?xs\<rparr>)"
    using assms by (rule remove_task_valid)
  have len: "Suc (length (take ?k ?xs @ drop (Suc ?k) ?xs)) = length ?xs"
    using k by simp
  have later: "(take ?k ?xs @ drop (Suc ?k) ?xs) ! (j - 1) = ?xs ! j"
    if "?k < j" and "j < length ?xs" for j
  proof -
    have lt: "length (take ?k ?xs) = ?k"
      using k by simp
    have ge: "\<not> j - 1 < ?k"
      using that by simp
    have "(take ?k ?xs @ drop (Suc ?k) ?xs) ! (j - 1) = drop (Suc ?k) ?xs ! (j - 1 - ?k)"
      using ge by (simp only: nth_append lt if_False)
    also have "\<dots> = ?xs ! (Suc ?k + (j - 1 - ?k))"
      using that by simp
    also have "Suc ?k + (j - 1 - ?k) = j"
      using that by simp
    finally show ?thesis .
  qed
  have earlier: "(take ?k ?xs @ drop (Suc ?k) ?xs) ! j = ?xs ! j" if "j < ?k" for j
    using that k by (simp add: nth_append)
  show ?thesis
    using len later earlier by (simp add: eq)
qed

theorem remove_task_deletes_at_index_witness:
  "fst (remove_task 1 (quiet_world [''a'', ''b'', ''c''])) = None
   \<and> todo_list (snd (remove_task 1 (quiet_world [''a'', ''b'', ''c'']))) = [''a'', ''c'']
   \<and> todo_list (snd (remove_task 1 (quiet_world [''a'', ''b'', ''c'']))) ! (2 - 1)
       = todo_list (quiet_world [''a'', ''b'', ''c'']) ! 2
   \<and> todo_list (snd (remove_task 1 (quiet_world [''a'', ''b'', ''c'']))) ! 0
       = todo_list (quiet_world [''a'', ''b'', ''c'']) ! 0"
proof -
  have h1: "(0::int) \<le> 1"
    by simp
  have h2: "(1::int) < int (length (todo_list (quiet_world [''a'', ''b'', ''c''])))"
    by (simp add: quiet_world_def)
  have two: "nat 1 < (2::nat) \<and> (2::nat) < length (todo_list (quiet_world [''a'', ''b'', ''c'']))"
    by (simp add: quiet_world_def)
  have zero: "(0::nat) < nat 1"
    by simp
  have eq: "todo_list (snd (remove_task 1 (quiet_world [''a'', ''b'', ''c'']))) = [''a'', ''c'']"
    by (simp add: remove_task_def del_item_def quiet_world_def)
  show ?thesis
    using remove_task_deletes_at_index [OF h1 h2] two zero eq by blast
qed

text \<open>
  Claim C2. For an index \<open>i\<close> with \<open>i < 0\<close> or \<open>i \<ge> length\<close>, \<^verbatim>\<open>remove_task(i)\<close>
  raises nothing, prints the line \<^verbatim>\<open>Invalid index\<close> and changes nothing else: the
  list is what it was.
\<close>

theorem remove_task_invalid_index:
  assumes "i < 0 \<or> int (length (todo_list w)) \<le> i"
  shows "remove_task i w = (None, w\<lparr>stdout := stdout w @ ''Invalid index'' @ [newline]\<rparr>)"
  using assms by (auto simp add: remove_task_def print_def)

theorem remove_task_invalid_index_witness:
  "remove_task 5 (quiet_world [''Buy groceries'', ''Read a book'']) =
     (None, (quiet_world [''Buy groceries'', ''Read a book''])\<lparr>stdout := ''Invalid index'' @ [newline]\<rparr>)
   \<and> remove_task (- 1) (quiet_world [''Buy groceries'', ''Read a book'']) =
     (None, (quiet_world [''Buy groceries'', ''Read a book''])\<lparr>stdout := ''Invalid index'' @ [newline]\<rparr>)"
proof -
  have h1: "(5::int) < 0 \<or> int (length (todo_list (quiet_world [''Buy groceries'', ''Read a book'']))) \<le> 5"
    by (simp add: quiet_world_def)
  have h2: "(- 1::int) < 0 \<or> int (length (todo_list (quiet_world [''Buy groceries'', ''Read a book'']))) \<le> - 1"
    by simp
  have out: "stdout (quiet_world [''Buy groceries'', ''Read a book'']) = []"
    by (simp add: quiet_world_def)
  show ?thesis
    using remove_task_invalid_index [OF h1] remove_task_invalid_index [OF h2] out by simp
qed

section \<open>Adding a task\<close>

text \<open>
  Claim C5. For every list and every description, the empty string included,
  \<^verbatim>\<open>add_task(description)\<close> raises nothing, makes the list longer by exactly one,
  puts the description at the end, and leaves every element that was stored at the
  position it had.
\<close>

theorem add_task_appends:
  "fst (add_task d w) = None
   \<and> todo_list (snd (add_task d w)) = todo_list w @ [d]
   \<and> length (todo_list (snd (add_task d w))) = length (todo_list w) + 1
   \<and> todo_list (snd (add_task d w)) ! length (todo_list w) = d
   \<and> (\<forall>j < length (todo_list w). todo_list (snd (add_task d w)) ! j = todo_list w ! j)"
  by (simp add: add_task_def nth_append)

theorem add_task_appends_witness:
  "fst (add_task '''' (quiet_world [''Buy groceries''])) = None
   \<and> todo_list (snd (add_task '''' (quiet_world [''Buy groceries'']))) = [''Buy groceries'', '''']
   \<and> todo_list (snd (add_task '''' (quiet_world [''Buy groceries'']))) ! 0 = ''Buy groceries''"
proof -
  have h: "(0::nat) < length (todo_list (quiet_world [''Buy groceries'']))"
    by (simp add: quiet_world_def)
  have t: "todo_list (quiet_world [''Buy groceries'']) = [''Buy groceries'']"
    by (simp add: quiet_world_def)
  show ?thesis
    using add_task_appends [of "''''" "quiet_world [''Buy groceries'']"] h t by simp
qed

section \<open>Listing the tasks\<close>

lemma listing_index:
  "listing 0 ts = concat (map (\<lambda>i. str_int (int i + 1) @ ''. '' @ ts ! i @ [newline]) [0..<length ts])"
  by (simp add: listing_def)

lemma emitted_view_tasks: "emitted view_tasks w = listing 0 (todo_list w)"
  by (simp add: emitted_def view_tasks_eq)

text \<open>
  Claim C4. After any run of appends to the empty list, \<^verbatim>\<open>view_tasks()\<close> raises
  nothing and adds to standard output one entry per task, in the order of the appends:
  the entry of the task at position \<open>i\<close> (counted from 0) is the decimal text of
  \<open>i + 1\<close>, a full stop, a space, the description, and the newline that ends the entry.
\<close>

theorem view_tasks_lists_in_append_order:
  "todo_list (snd (add_tasks ds (w\<lparr>todo_list := []\<rparr>))) = ds
   \<and> fst (view_tasks (snd (add_tasks ds (w\<lparr>todo_list := []\<rparr>)))) = None
   \<and> stdout (snd (view_tasks (snd (add_tasks ds (w\<lparr>todo_list := []\<rparr>))))) =
       stdout w @ concat (map (\<lambda>i. str_int (int i + 1) @ ''. '' @ ds ! i @ [newline]) [0..<length ds])"
  by (simp add: add_tasks_eq view_tasks_eq listing_index)

text \<open>
  Claim C8. What \<^verbatim>\<open>view_tasks()\<close> writes is determined by the list alone, and a
  second call right after the first, with no change of the list between them, writes
  the same text again.
\<close>

theorem view_tasks_repeatable:
  "emitted view_tasks w = listing 0 (todo_list w)
   \<and> emitted view_tasks (snd (view_tasks w)) = emitted view_tasks w"
  by (simp add: emitted_view_tasks view_tasks_eq)

section \<open>Saving the tasks\<close>

text \<open>
  Claim C3, as the spec states it, says that the saved file, read back as
  newline-delimited text, gives the list of descriptions for every list. The program
  writes a description as it is, so a description that holds a newline character comes
  back as two lines: the list with the one task \<^verbatim>\<open>a\nb\<close> is saved as the text
  \<^verbatim>\<open>a\nb\n\<close>, which reads back as the two entries \<^verbatim>\<open>a\<close> and \<^verbatim>\<open>b\<close>.
\<close>

theorem save_tasks_reread_counterexample:
  "fst (save_tasks ''todo.txt'' (quiet_world [[CHR ''a'', newline, CHR ''b'']])) = None
   \<and> files (snd (save_tasks ''todo.txt'' (quiet_world [[CHR ''a'', newline, CHR ''b'']]))) ''todo.txt''
       = Some [CHR ''a'', newline, CHR ''b'', newline]
   \<and> read_lines [CHR ''a'', newline, CHR ''b'', newline] = [''a'', ''b'']
   \<and> read_lines [CHR ''a'', newline, CHR ''b'', newline]
       \<noteq> todo_list (quiet_world [[CHR ''a'', newline, CHR ''b'']])"
  by (simp add: save_tasks_def open_w_def file_write_def file_close_def quiet_world_def
      read_lines_def newline_def)

text \<open>
  Claim C3, amended. When the file can be opened and no write fails,
  \<^verbatim>\<open>save_tasks(filename)\<close> raises nothing and leaves in the file exactly each
  description followed by one newline character, in the order of the list, whatever
  the file held before, and no other file is touched. When no description holds a
  newline character, reading that text back as newline-delimited text gives exactly
  the list of descriptions, in order.
\<close>

theorem save_tasks_file_content:
  assumes "filename \<notin> denied w"
    and "budget_covers (write_budget w) (length (todo_list w))"
  shows "fst (save_tasks filename w) = None
    \<and> files (snd (save_tasks filename w)) filename
        = Some (concat (map (\<lambda>t. t @ [newline]) (todo_list w)))
    \<and> (\<forall>p. p \<noteq> filename \<longrightarrow> files (snd (save_tasks filename w)) p = files w p)
    \<and> ((\<forall>t \<in> set (todo_list w). newline \<notin> set t) \<longrightarrow>
        read_lines (concat (map (\<lambda>t. t @ [newline]) (todo_list w))) = todo_list w)"
proof -
  have reread: "read_lines (concat (map (\<lambda>t. t @ [newline]) (todo_list w))) = todo_list w"
    if "\<forall>t \<in> set (todo_list w). newline \<notin> set t"
    using read_lines_file_text [OF that] by (simp add: file_text_def)
  show ?thesis
    using reread by (simp add: save_tasks_ok [OF assms] file_text_def)
qed

theorem save_tasks_file_content_witness:
  "fst (save_tasks ''todo.txt'' ((quiet_world [''Buy groceries'', ''''])\<lparr>files := [''todo.txt'' \<mapsto> ''old'']\<rparr>)) = None
   \<and> files (snd (save_tasks ''todo.txt'' ((quiet_world [''Buy groceries'', ''''])\<lparr>files := [''todo.txt'' \<mapsto> ''old'']\<rparr>))) ''todo.txt''
       = Some (''Buy groceries'' @ [newline] @ [newline])
   \<and> files (snd (save_tasks ''todo.txt'' ((quiet_world [''Buy groceries'', ''''])\<lparr>files := [''todo.txt'' \<mapsto> ''old'']\<rparr>))) ''other.txt''
       = None
   \<and> read_lines (''Buy groceries'' @ [newline] @ [newline]) = [''Buy groceries'', '''']"
proof -
  let ?w = "(quiet_world [''Buy groceries'', ''''])\<lparr>files := [''todo.txt'' \<mapsto> ''old'']\<rparr>"
  have h1: "''todo.txt'' \<notin> denied ?w"
    by (simp add: quiet_world_def)
  have h2: "budget_covers (write_budget ?w) (length (todo_list ?w))"
    by (simp add: quiet_world_def budget_covers_def)
  have h3: "\<forall>t \<in> set (todo_list ?w). newline \<notin> set t"
    by (simp add: quiet_world_def newline_def)
  have h4: "''other.txt'' \<noteq> ''todo.txt''"
    by simp
  have t: "todo_list ?w = [''Buy groceries'', '''']" "files ?w ''other.txt'' = None"
    by (simp_all add: quiet_world_def)
  show ?thesis
    using save_tasks_file_content [OF h1 h2] h3 h4 t by simp
qed

lemma main_eq_save:
  "main w = save_tasks ''todo.txt''
     (w\<lparr>todo_list := [''Buy groceries'', ''Read a book''],
        stdout := stdout w @ listing 0 [''Buy groceries'', ''Read a book'']\<rparr>)"
  by (simp add: main_def seq_def add_task_def view_tasks_eq)

text \<open>
  Claim C7. \<^verbatim>\<open>save_tasks\<close> catches no I/O error. When the file cannot be opened
  the error goes to the caller and the world is untouched; when a write in the loop
  fails the error goes to the caller; and on every path, the failing ones included, the
  file objects that are open afterwards are those that were open before, so the one
  opened by the call has been closed. At the top level of the module nothing catches
  the error either: the run of the script ends with it.
\<close>

theorem save_tasks_io_error_propagates:
  "(filename \<in> denied w \<longrightarrow> save_tasks filename w = (Some OSError, w))
   \<and> (filename \<notin> denied w \<and> write_budget w = Some k \<and> k < length (todo_list w) \<longrightarrow>
        fst (save_tasks filename w) = Some OSError)
   \<and> open_handles (snd (save_tasks filename w)) = open_handles w
   \<and> (''todo.txt'' \<in> denied w \<or> (write_budget w = Some k \<and> k < 2) \<longrightarrow>
        fst (main w) = Some OSError)"
proof -
  let ?w3 = "w\<lparr>todo_list := [''Buy groceries'', ''Read a book''],
        stdout := stdout w @ listing 0 [''Buy groceries'', ''Read a book'']\<rparr>"
  have m1: "fst (main w) = Some OSError" if "''todo.txt'' \<in> denied w"
  proof -
    have "''todo.txt'' \<in> denied ?w3"
      using that by simp
    then show ?thesis
      by (simp only: main_eq_save save_tasks_denied fst_conv)
  qed
  have m2: "fst (main w) = Some OSError"
    if "''todo.txt'' \<notin> denied w" and "write_budget w = Some k" and "k < 2"
  proof -
    have "fst (save_tasks ''todo.txt'' ?w3) = Some OSError"
      by (rule save_tasks_short_budget [of _ _ k]) (use that in simp_all)
    then show ?thesis
      by (simp only: main_eq_save)
  qed
  show ?thesis
    using m1 m2 save_tasks_denied [of filename w] save_tasks_short_budget [of filename w k]
      save_tasks_handles [of filename w]
    by blast
qed

theorem save_tasks_io_error_propagates_witness:
  "save_tasks ''/ro'' ((quiet_world [''a''])\<lparr>denied := {''/ro''}\<rparr>)
     = (Some OSError, (quiet_world [''a''])\<lparr>denied := {''/ro''}\<rparr>)
   \<and> fst (save_tasks ''out.txt'' ((quiet_world [''a'', ''b''])\<lparr>write_budget := Some 1\<rparr>)) = Some OSError
   \<and> open_handles (snd (save_tasks ''out.txt'' ((quiet_world [''a'', ''b''])\<lparr>write_budget := Some 1\<rparr>))) = []
   \<and> fst (main ((quiet_world [''a'', ''b''])\<lparr>write_budget := Some 1\<rparr>)) = Some OSError"
proof -
  let ?A = "(quiet_world [''a''])\<lparr>denied := {''/ro''}\<rparr>"
  let ?B = "(quiet_world [''a'', ''b''])\<lparr>write_budget := Some 1\<rparr>"
  have a: "''/ro'' \<in> denied ?A"
    by simp
  have b: "''out.txt'' \<notin> denied ?B \<and> write_budget ?B = Some 1 \<and> 1 < length (todo_list ?B)"
    by (simp add: quiet_world_def)
  have c: "write_budget ?B = Some 1 \<and> (1::nat) < 2"
    by simp
  have d: "open_handles ?B = []"
    by (simp add: quiet_world_def)
  show ?thesis
    using save_tasks_io_error_propagates [of "''/ro''" ?A 0]
      save_tasks_io_error_propagates [of "''out.txt''" ?B 1] a b c d
    by simp
qed

section \<open>What listing and saving leave alone\<close>

text \<open>
  Claim C9. \<^verbatim>\<open>view_tasks()\<close> and \<^verbatim>\<open>save_tasks(filename)\<close> only read the
  list: after either call, whether it raised or not, the list is what it was before.
\<close>

theorem view_and_save_keep_the_list:
  "todo_list (snd (view_tasks w)) = todo_list w
   \<and> todo_list (snd (save_tasks filename w)) = todo_list w"
  by (simp add: view_tasks_eq save_tasks_todo)

lemma save_tasks_empty:
  assumes "todo_list w = []" and "filename \<notin> denied w"
  shows "save_tasks filename w = (None, w\<lparr>files := (files w)(filename \<mapsto> [])\<rparr>)"
  using assms by (simp add: save_tasks_def open_w_def file_close_def)

text \<open>
  Claim C10. With an empty list, \<^verbatim>\<open>view_tasks()\<close> writes nothing and returns
  normally, and \<^verbatim>\<open>save_tasks(filename)\<close>, when the file can be opened, still
  truncates it, writes nothing, leaves it empty and returns normally.
\<close>

theorem empty_list_view_and_save:
  assumes "todo_list w = []"
  shows "view_tasks w = (None, w)
    \<and> (filename \<notin> denied w \<longrightarrow>
         save_tasks filename w = (None, w\<lparr>files := (files w)(filename \<mapsto> [])\<rparr>))"
  using assms by (simp add: view_tasks_eq save_tasks_empty)

theorem empty_list_view_and_save_witness:
  "view_tasks ((quiet_world [])\<lparr>files := [''todo.txt'' \<mapsto> ''old''], write_budget := Some 0\<rparr>)
     = (None, (quiet_world [])\<lparr>files := [''todo.txt'' \<mapsto> ''old''], write_budget := Some 0\<rparr>)
   \<and> fst (save_tasks ''todo.txt''
       ((quiet_world [])\<lparr>files := [''todo.txt'' \<mapsto> ''old''], write_budget := Some 0\<rparr>)) = None
   \<and> files (snd (save_tasks ''todo.txt''
       ((quiet_world [])\<lparr>files := [''todo.txt'' \<mapsto> ''old''], write_budget := Some 0\<rparr>))) ''todo.txt''
       = Some []"
proof -
  let ?w = "(quiet_world [])\<lparr>files := [''todo.txt'' \<mapsto> ''old''], write_budget := Some 0\<rparr>"
  have h1: "todo_list ?w = []"
    by (simp add: quiet_world_def)
  have h2: "''todo.txt'' \<notin> denied ?w"
    by (simp add: quiet_world_def)
  show ?thesis
    using empty_list_view_and_save [OF h1, of "''todo.txt''"] h2 by simp
qed

section \<open>The scripted run\<close>

lemma main_ok:
  assumes "''todo.txt'' \<notin> denied w" and "budget_covers (write_budget w) 2"
  shows "main w =
    (None, w\<lparr>todo_list := [''Buy groceries'', ''Read a book''],
              stdout := stdout w @ ''1. Buy groceries'' @ [newline] @ ''2. Read a book'' @ [newline],
              files := (files w)(''todo.txt'' \<mapsto> ''Buy groceries'' @ [newline] @ ''Read a book'' @ [newline]),
              write_budget := spend (write_budget w) 2\<rparr>)"
proof -
  let ?ts = "[''Buy groceries'', ''Read a book'']"
  let ?w2 = "w\<lparr>todo_list := ?ts\<rparr>"
  let ?w3 = "?w2\<lparr>stdout := stdout ?w2 @ listing 0 (todo_list ?w2)\<rparr>"
  have l: "listing 0 ?ts = ''1. Buy groceries'' @ [newline] @ ''2. Read a book'' @ [newline]"
    by (simp add: listing_Cons str_int_1 str_int_2)
  have sv: "save_tasks ''todo.txt'' ?w3 =
     (None, ?w3\<lparr>files := (files ?w3)(''todo.txt'' \<mapsto> file_text (todo_list ?w3)),
               write_budget := spend (write_budget ?w3) (length (todo_list ?w3))\<rparr>)"
    by (rule save_tasks_ok) (use assms in \<open>simp_all add: numeral_2_eq_2\<close>)
  have "main w = save_tasks ''todo.txt'' ?w3"
    by (simp add: main_def seq_def add_task_def view_tasks_eq)
  also have "\<dots> =
     (None, ?w3\<lparr>files := (files ?w3)(''todo.txt'' \<mapsto> file_text (todo_list ?w3)),
               write_budget := spend (write_budget ?w3) (length (todo_list ?w3))\<rparr>)"
    by (rule sv)
  also have "\<dots> =
    (None, w\<lparr>todo_list := [''Buy groceries'', ''Read a book''],
              stdout := stdout w @ ''1. Buy groceries'' @ [newline] @ ''2. Read a book'' @ [newline],
              files := (files w)(''todo.txt'' \<mapsto> ''Buy groceries'' @ [newline] @ ''Read a book'' @ [newline]),
              write_budget := spend (write_budget w) 2\<rparr>)"
    by (simp add: l file_text_def numeral_2_eq_2)
  finally show ?thesis .
qed

text \<open>
  Claim C6. The module's top level starts from the empty list and runs
  \<^verbatim>\<open>add_task("Buy groceries")\<close>, \<^verbatim>\<open>add_task("Read a book")\<close>,
  \<^verbatim>\<open>view_tasks()\<close>, \<^verbatim>\<open>save_tasks("todo.txt")\<close>. When \<^verbatim>\<open>todo.txt\<close> can be
  opened and two writes succeed, the run raises nothing, standard output gains the lines
  \<^verbatim>\<open>1. Buy groceries\<close> and \<^verbatim>\<open>2. Read a book\<close>, and \<^verbatim>\<open>todo.txt\<close> holds
  exactly \<^verbatim>\<open>Buy groceries\nRead a book\n\<close>.
\<close>

theorem main_scripted_run:
  assumes "''todo.txt'' \<notin> denied w" and "budget_covers (write_budget w) 2"
  shows "fst (main w) = None
    \<and> todo_list (snd (main w)) = [''Buy groceries'', ''Read a book'']
    \<and> stdout (snd (main w)) = stdout w @ ''1. Buy groceries'' @ [newline] @ ''2. Read a book'' @ [newline]
    \<and> files (snd (main w)) ''todo.txt'' = Some (''Buy groceries'' @ [newline] @ ''Read a book'' @ [newline])"
  by (simp add: main_ok [OF assms])

theorem main_scripted_run_witness:
  "fst (main (quiet_world [])) = None
   \<and> todo_list (snd (main (quiet_world []))) = [''Buy groceries'', ''Read a book'']
   \<and> stdout (snd (main (quiet_world []))) = ''1. Buy groceries'' @ [newline] @ ''2. Read a book'' @ [newline]
   \<and> files (snd (main (quiet_world []))) ''todo.txt'' = Some (''Buy groceries'' @ [newline] @ ''Read a book'' @ [newline])"
proof -
  have h1: "''todo.txt'' \<notin> denied (quiet_world [])"
    by (simp add: quiet_world_def)
  have h2: "budget_covers (write_budget (quiet_world [])) 2"
    by (simp add: quiet_world_def budget_covers_def)
  have out: "stdout (quiet_world []) = []"
    by (simp add: quiet_world_def)
  show ?thesis
    using main_scripted_run [OF h1 h2] out by simp
qed

end
